theory Spec2Isabelle
  imports Complex_Main "HOL-Library.Multiset"
begin

section \<open>JavaScript values\<close>

text \<open>
  The document store of \<^verbatim>\<open>src/docs-db.js\<close> receives arbitrary JavaScript values and tests
  them with \<^verbatim>\<open>typeof\<close>, \<^verbatim>\<open>!x\<close> and \<^verbatim>\<open>Array.isArray\<close>, so the arguments of every operation
  are modelled as values of one datatype of plain data: \<^verbatim>\<open>undefined\<close>, \<^verbatim>\<open>null\<close>, booleans,
  numbers, strings, arrays and objects. An object is the list of its own enumerable
  entries in the order \<^verbatim>\<open>Object.entries\<close> yields them; an own key may be \<^verbatim>\<open>__proto__\<close>, as
  \<^verbatim>\<open>JSON.parse\<close> makes one. A string is a list of code units
  below 256. A number is a rational (every finite double is one), \<^verbatim>\<open>NaN\<close> or an infinity;
  the source only tests numbers for truthiness, compares them as keys and subtracts
  integer timestamps.
\<close>

datatype jsnum = Finite rat | NaN | PosInfinity | NegInfinity

datatype jsval =
    JUndefined
  | JNull
  | JBool bool
  | JNum jsnum
  | JStr (str_of: string)
  | JArr "jsval list"
  | JObj "(string \<times> jsval) list"

datatype jstype = TUndefined | TObject | TBoolean | TNumber | TString

text \<open>\<^verbatim>\<open>typeof v\<close>: \<^verbatim>\<open>null\<close> and arrays are of type \<^verbatim>\<open>'object'\<close>.\<close>

fun typeof :: "jsval \<Rightarrow> jstype" where
  "typeof JUndefined = TUndefined"
| "typeof JNull = TObject"
| "typeof (JBool _) = TBoolean"
| "typeof (JNum _) = TNumber"
| "typeof (JStr _) = TString"
| "typeof (JArr _) = TObject"
| "typeof (JObj _) = TObject"

text \<open>
  \<^verbatim>\<open>!v\<close> is \<open>\<not> truthy v\<close>: the falsy values are \<^verbatim>\<open>undefined\<close>, \<^verbatim>\<open>null\<close>, \<^verbatim>\<open>false\<close>,
  \<^verbatim>\<open>0\<close>, \<^verbatim>\<open>NaN\<close> and the empty string.
\<close>

fun truthy :: "jsval \<Rightarrow> bool" where
  "truthy JUndefined = False"
| "truthy JNull = False"
| "truthy (JBool b) = b"
| "truthy (JNum n) = (n \<noteq> Finite 0 \<and> n \<noteq> NaN)"
| "truthy (JStr s) = (s \<noteq> [])"
| "truthy (JArr _) = True"
| "truthy (JObj _) = True"

text \<open>\<^verbatim>\<open>a || b\<close>\<close>

definition js_or :: "jsval \<Rightarrow> jsval \<Rightarrow> jsval" where
  "js_or a b = (if truthy a then a else b)"

text \<open>The decimal name of an array index, as \<^verbatim>\<open>Object.entries\<close> of an array spells its keys.\<close>

function dec :: "nat \<Rightarrow> string" where
  "dec n =
     (if n < 10 then [''0123456789'' ! n]
      else dec (n div 10) @ [''0123456789'' ! (n mod 10)])"
  by pat_completeness auto
termination
  by (relation "measure (\<lambda>n. n)") auto

text \<open>\<^verbatim>\<open>Object.entries(v)\<close> for an object or an array.\<close>

fun entries :: "jsval \<Rightarrow> (string \<times> jsval) list" where
  "entries (JObj kvs) = kvs"
| "entries (JArr xs) = zip (map dec [0..<length xs]) xs"
| "entries _ = []"

text \<open>
  The property read \<^verbatim>\<open>v.k\<close> for a key \<open>k\<close> that is a data property (not \<^verbatim>\<open>length\<close>, not
  inherited): the entry's value, or \<^verbatim>\<open>undefined\<close> when there is none.
\<close>

definition js_get :: "jsval \<Rightarrow> string \<Rightarrow> jsval" where
  "js_get v k = (case map_of (entries v) k of Some x \<Rightarrow> x | None \<Rightarrow> JUndefined)"

text \<open>
  \<^verbatim>\<open>String.prototype.trim\<close>: the white space and line terminators among the code units
  below 256 are TAB, LF, VT, FF, CR, SP and NBSP.
\<close>

definition is_ws :: "char \<Rightarrow> bool" where
  "is_ws c =
     (c = CHR 0x09 \<or> c = CHR 0x0A \<or> c = CHR 0x0B \<or> c = CHR 0x0C \<or> c = CHR 0x0D \<or>
      c = CHR 0x20 \<or> c = CHR 0xA0)"

definition trim :: "string \<Rightarrow> string" where
  "trim s = rev (dropWhile is_ws (rev (dropWhile is_ws s)))"

section \<open>Sanitization\<close>

text \<open>\<^verbatim>\<open>s.replace(/c/g, r)\<close> for a single character \<open>c\<close>.\<close>

definition replace_all :: "char \<Rightarrow> string \<Rightarrow> string \<Rightarrow> string" where
  "replace_all c r s = concat (map (\<lambda>x. if x = c then r else [x]) s)"

text \<open>The chain of five replacements of \<^verbatim>\<open>sanitizeData\<close>, innermost first.\<close>

definition escape :: "string \<Rightarrow> string" where
  "escape s =
     replace_all (CHR ''/'') ''&#x2F;''
       (replace_all (CHR 0x27) ''&#x27;''
         (replace_all (CHR 0x22) ''&quot;''
           (replace_all (CHR ''>'') ''&gt;''
             (replace_all (CHR ''<'') ''&lt;'' s))))"

text \<open>
  The own entries of the object that \<^verbatim>\<open>const sanitized = {}\<close> and one assignment
  \<^verbatim>\<open>sanitized[key] = value\<close> for each pair of the list build. The keys of the list are
  those of \<^verbatim>\<open>Object.entries\<close>, distinct and in enumeration order, so each assignment adds
  an entry at the end, but for the key \<^verbatim>\<open>__proto__\<close>: that assignment goes to the setter
  the object inherits from \<^verbatim>\<open>Object.prototype\<close> and adds no entry.
\<close>

definition own_entries :: "(string \<times> jsval) list \<Rightarrow> (string \<times> jsval) list" where
  "own_entries kvs = filter (\<lambda>(key, value). key \<noteq> ''__proto__'') kvs"

text \<open>
  \<^verbatim>\<open>DocumentDB.sanitizeData\<close>. \<open>sanitizeValue\<close> is the body of its loop over the entries and
  \<open>sanitizeItem\<close> the function it maps over an array:
  \<^verbatim>\<open>item => typeof item === 'object' ? this.sanitizeData(item) : item\<close>.
\<close>

function sanitizeData :: "jsval \<Rightarrow> jsval"
  and sanitizeValue :: "jsval \<Rightarrow> jsval"
  and sanitizeItem :: "jsval \<Rightarrow> jsval" where
  "sanitizeData data =
     (if \<not> truthy data \<or> typeof data \<noteq> TObject then data
      else JObj (own_entries
                  (map (\<lambda>(key, value). (key, sanitizeValue value)) (entries data))))"
| "sanitizeValue value =
     (case value of
        JStr s \<Rightarrow> JStr (escape s)
      | JArr items \<Rightarrow> JArr (map sanitizeItem items)
      | JObj _ \<Rightarrow> sanitizeData value
      | _ \<Rightarrow> value)"
| "sanitizeItem item = (if typeof item = TObject then sanitizeData item else item)"
  by pat_completeness auto

lemma size_elem: "x \<in> set xs \<Longrightarrow> size x < Suc (size_list size xs)"
  by (induction xs) auto

lemma size_entry:
  "(k, v) \<in> set kvs \<Longrightarrow> size v < Suc (size_list (size_prod (\<lambda>_. 0) size) kvs)"
  by (induction kvs) auto

lemma size_entries: "(k, v) \<in> set (entries d) \<Longrightarrow> size v < size d"
  by (cases d) (auto dest: size_entry size_elem set_zip_rightD)

termination sanitizeData
  apply (relation "measures
      [\<lambda>x. case x of Inl d \<Rightarrow> size d | Inr (Inl v) \<Rightarrow> size v | Inr (Inr i) \<Rightarrow> size i,
       \<lambda>x. case x of Inl d \<Rightarrow> 0 | Inr _ \<Rightarrow> 1]")
  apply (auto dest: size_entries size_elem)
  done

declare sanitizeData.simps [simp del] sanitizeValue.simps [simp del]
  sanitizeItem.simps [simp del] dec.simps [simp del]

text \<open>
  What one pass of \<open>escape\<close> writes for one character: the five replacements put
  no \<^verbatim>\<open><\<close>, \<^verbatim>\<open>>\<close>, quote or \<^verbatim>\<open>/\<close> into the string, so the chain acts on each character of the
  input on its own.
\<close>

definition esc :: "char \<Rightarrow> string" where
  "esc c =
     (if c = CHR ''<'' then ''&lt;''
      else if c = CHR ''>'' then ''&gt;''
      else if c = CHR 0x22 then ''&quot;''
      else if c = CHR 0x27 then ''&#x27;''
      else if c = CHR ''/'' then ''&#x2F;''
      else [c])"

section \<open>The object store\<close>

text \<open>
  A stored record. \<open>id_of\<close> is the field \<^verbatim>\<open>id\<close>, the key path of the store: the key
  generator writes it (\<^verbatim>\<open>autoIncrement\<close>). \<open>docType\<close> is whatever \<^verbatim>\<open>data.docType || 'unknown'\<close>
  evaluates to, so it is a value, not a string. \<open>timestamp\<close> is \<^verbatim>\<open>Date.now()\<close>, an
  integer.
\<close>

record document =
  id_of :: nat
  docId :: string
  title :: string
  data :: jsval
  userId :: string
  timestamp :: int
  createdAt :: string
  docType :: jsval

text \<open>
  The object store \<^verbatim>\<open>documents\<close> of the database \<^verbatim>\<open>DocumentsDB\<close>: its records in key
  order, and the current number of its key generator, which starts at 1 and only
  grows. \<^verbatim>\<open>onupgradeneeded\<close> creates the store empty.
\<close>

record database =
  records :: "document list"
  keyGen :: nat

definition emptyDB :: database where
  "emptyDB = \<lparr>records = [], keyGen = 1\<rparr>"

text \<open>
  Every state the operations reach from \<open>emptyDB\<close>: keys are generated, so they are
  positive, below the generator's current number and distinct.
\<close>

definition wf_db :: "database \<Rightarrow> bool" where
  "wf_db db =
     (0 < keyGen db \<and>
      list_all (\<lambda>d. 0 < id_of d \<and> id_of d < keyGen db) (records db) \<and>
      distinct (map id_of (records db)))"

text \<open>\<^verbatim>\<open>new Error(msg)\<close>\<close>

datatype error = Error string

text \<open>
  What IndexedDB does to one operation, one constructor for each handler of the
  source: the capability is missing (\<^verbatim>\<open>!window.indexedDB\<close>), the open request fails
  (\<^verbatim>\<open>request.onerror\<close> of \<^verbatim>\<open>initDB\<close>), the transaction fails (\<^verbatim>\<open>transaction.onerror\<close>), the
  request fails (\<^verbatim>\<open>request.onerror\<close> of the operation), or nothing fails. The argument is
  \<^verbatim>\<open>error?.message\<close>, when there is one.
\<close>

datatype io_outcome =
    IoOk
  | Unsupported
  | OpenFails "string option"
  | TransactionFails "string option"
  | RequestFails "string option"

text \<open>\<^verbatim>\<open>error?.message || 'Unknown error'\<close>\<close>

definition message :: "string option \<Rightarrow> string" where
  "message m =
     (case m of None \<Rightarrow> ''Unknown error'' | Some s \<Rightarrow> if s = [] then ''Unknown error'' else s)"

definition initDB :: "io_outcome \<Rightarrow> error + unit" where
  "initDB io =
     (case io of
        Unsupported \<Rightarrow> Inl (Error ''IndexedDB not supported in this browser'')
      | OpenFails m \<Rightarrow> Inl (Error (''Database error: '' @ message m))
      | _ \<Rightarrow> Inr ())"

text \<open>
  A key given to \<^verbatim>\<open>store.get\<close> or \<^verbatim>\<open>store.delete\<close> against the key of a record. The keys of
  the store are generated numbers: a string key equals none of them.
\<close>

fun key_eq :: "jsval \<Rightarrow> nat \<Rightarrow> bool" where
  "key_eq (JNum (Finite q)) k = (q = of_nat k)"
| "key_eq _ k = False"

text \<open>\<^verbatim>\<open>store.get(id)\<close>, \<^verbatim>\<open>store.delete(id)\<close> and \<^verbatim>\<open>index.getAll(key)\<close> on the index \<^verbatim>\<open>userId\<close>.\<close>

definition store_get :: "database \<Rightarrow> jsval \<Rightarrow> document option" where
  "store_get db k = find (\<lambda>d. key_eq k (id_of d)) (records db)"

definition store_delete :: "database \<Rightarrow> jsval \<Rightarrow> database" where
  "store_delete db k = db\<lparr>records := filter (\<lambda>d. \<not> key_eq k (id_of d)) (records db)\<rparr>"

definition index_getAll :: "database \<Rightarrow> string \<Rightarrow> document list" where
  "index_getAll db k = filter (\<lambda>d. userId d = k) (records db)"

text \<open>
  \<^verbatim>\<open>docs.sort((a, b) => b.timestamp - a.timestamp)\<close>: a stable sort, largest timestamp
  first.
\<close>

definition sortByTimestampDesc :: "document list \<Rightarrow> document list" where
  "sortByTimestampDesc docs = sort_key (\<lambda>d. - timestamp d) docs"

section \<open>The operations of \<^verbatim>\<open>DocumentDB\<close>\<close>

text \<open>
  Every operation takes the outcome of its own I/O and the store, and returns the
  error it throws or the value it resolves to; the operations that write return the
  store as well. \<open>now\<close> and \<open>isoString\<close> are what \<^verbatim>\<open>Date.now()\<close> and
  \<^verbatim>\<open>new Date().toISOString()\<close> return during the call.
\<close>

definition save ::
  "io_outcome \<Rightarrow> int \<Rightarrow> string \<Rightarrow> database \<Rightarrow> jsval \<Rightarrow> jsval \<Rightarrow> jsval \<Rightarrow> jsval \<Rightarrow>
   (error + nat) \<times> database" where
  "save io now isoString db docId title data userId =
     (if \<not> truthy docId \<or> typeof docId \<noteq> TString then
        (Inl (Error ''Invalid docId provided''), db)
      else if \<not> truthy title \<or> typeof title \<noteq> TString then
        (Inl (Error ''Invalid title provided''), db)
      else if \<not> truthy data \<or> typeof data \<noteq> TObject then
        (Inl (Error ''Invalid data provided''), db)
      else if \<not> truthy userId \<or> typeof userId \<noteq> TString then
        (Inl (Error ''Invalid userId provided''), db)
      else
        (case initDB io of
           Inl e \<Rightarrow> (Inl e, db)
         | Inr _ \<Rightarrow>
             (let sanitizedData = sanitizeData data;
                  document =
                    \<lparr>id_of = keyGen db,
                     docId = trim (str_of docId),
                     title = trim (str_of title),
                     data = sanitizedData,
                     userId = trim (str_of userId),
                     timestamp = now,
                     createdAt = isoString,
                     docType = js_or (js_get data ''docType'') (JStr ''unknown'')\<rparr>
              in (case io of
                    TransactionFails m \<Rightarrow> (Inl (Error (''Save failed: '' @ message m)), db)
                  | RequestFails m \<Rightarrow>
                      (Inl (Error (''Add operation failed: '' @ message m)), db)
                  | _ \<Rightarrow>
                      (Inr (keyGen db),
                       db\<lparr>records := records db @ [document],
                          keyGen := Suc (keyGen db)\<rparr>)))))"
  for docId title data userId

definition getByUser :: "io_outcome \<Rightarrow> database \<Rightarrow> jsval \<Rightarrow> error + document list" where
  "getByUser io db userId =
     (if \<not> truthy userId \<or> typeof userId \<noteq> TString then
        Inl (Error ''Invalid userId provided'')
      else
        (case initDB io of
           Inl e \<Rightarrow> Inl e
         | Inr _ \<Rightarrow>
             (case io of
                TransactionFails m \<Rightarrow> Inl (Error (''Retrieval failed: '' @ message m))
              | RequestFails m \<Rightarrow> Inl (Error (''GetAll failed: '' @ message m))
              | _ \<Rightarrow> Inr (sortByTimestampDesc (index_getAll db (trim (str_of userId)))))))"
  for userId

text \<open>The result \<open>None\<close> is \<^verbatim>\<open>null\<close>, from \<^verbatim>\<open>request.result || null\<close>.\<close>

definition getById :: "io_outcome \<Rightarrow> database \<Rightarrow> jsval \<Rightarrow> error + document option" where
  "getById io db ident =
     (if \<not> truthy ident \<or> (typeof ident \<noteq> TString \<and> typeof ident \<noteq> TNumber) then
        Inl (Error ''Invalid id provided'')
      else
        (case initDB io of
           Inl e \<Rightarrow> Inl e
         | Inr _ \<Rightarrow>
             (case io of
                TransactionFails m \<Rightarrow> Inl (Error (''Retrieval failed: '' @ message m))
              | RequestFails m \<Rightarrow> Inl (Error (''Get failed: '' @ message m))
              | _ \<Rightarrow> Inr (store_get db ident))))"

definition delete :: "io_outcome \<Rightarrow> database \<Rightarrow> jsval \<Rightarrow> (error + unit) \<times> database" where
  "delete io db ident =
     (if \<not> truthy ident \<or> (typeof ident \<noteq> TString \<and> typeof ident \<noteq> TNumber) then
        (Inl (Error ''Invalid id provided''), db)
      else
        (case initDB io of
           Inl e \<Rightarrow> (Inl e, db)
         | Inr _ \<Rightarrow>
             (case io of
                TransactionFails m \<Rightarrow> (Inl (Error (''Delete failed: '' @ message m)), db)
              | RequestFails m \<Rightarrow> (Inl (Error (''Delete failed: '' @ message m)), db)
              | _ \<Rightarrow> (Inr (), store_delete db ident))))"

text \<open>
  \<^verbatim>\<open>docs.map(doc => this.delete(doc.id))\<close>: one delete for each record read, each with
  its own I/O (\<open>ios k\<close> is the outcome of the delete of key \<open>k\<close>). The deletes touch
  different keys, so the order in which their transactions commit does not change
  the store they leave; a delete that fails does not stop the others.
\<close>

fun deleteEach ::
  "(nat \<Rightarrow> io_outcome) \<Rightarrow> database \<Rightarrow> document list \<Rightarrow> (error + unit) list \<times> database" where
  "deleteEach ios db [] = ([], db)"
| "deleteEach ios db (doc # docs) =
     (case delete (ios (id_of doc)) db (JNum (Finite (of_nat (id_of doc)))) of
        (r, db') \<Rightarrow> (case deleteEach ios db' docs of (rs, db'') \<Rightarrow> (r # rs, db'')))"

text \<open>\<^verbatim>\<open>await Promise.all(promises)\<close>: throws a rejection, the first of the list here.\<close>

fun promise_all :: "(error + unit) list \<Rightarrow> error + unit" where
  "promise_all [] = Inr ()"
| "promise_all (Inl e # rs) = Inl e"
| "promise_all (Inr _ # rs) = promise_all rs"

definition clearUserDocuments ::
  "io_outcome \<Rightarrow> (nat \<Rightarrow> io_outcome) \<Rightarrow> database \<Rightarrow> jsval \<Rightarrow> (error + nat) \<times> database" where
  "clearUserDocuments io ios db userId =
     (if \<not> truthy userId \<or> typeof userId \<noteq> TString then
        (Inl (Error ''Invalid userId provided''), db)
      else
        (case getByUser io db userId of
           Inl e \<Rightarrow> (Inl e, db)
         | Inr docs \<Rightarrow>
             (case deleteEach ios db docs of
                (rs, db') \<Rightarrow>
                  (case promise_all rs of
                     Inl e \<Rightarrow> (Inl e, db')
                   | Inr _ \<Rightarrow> (Inr (length docs), db')))))"
  for userId

section \<open>The specification's vocabulary\<close>

text \<open>
  The preconditions in the words of the specification: a non-empty string; a
  structured, non-null object; an id that is a non-empty string or an integer.
\<close>

definition spec_nonempty_string :: "jsval \<Rightarrow> bool" where
  "spec_nonempty_string v = (case v of JStr s \<Rightarrow> s \<noteq> [] | _ \<Rightarrow> False)"

definition spec_structured :: "jsval \<Rightarrow> bool" where
  "spec_structured v = (case v of JObj _ \<Rightarrow> True | JArr _ \<Rightarrow> True | _ \<Rightarrow> False)"

definition spec_integer :: "jsval \<Rightarrow> bool" where
  "spec_integer v = (case v of JNum (Finite q) \<Rightarrow> of_int \<lfloor>q\<rfloor> = q | _ \<Rightarrow> False)"

definition spec_id :: "jsval \<Rightarrow> bool" where
  "spec_id v = (spec_nonempty_string v \<or> spec_integer v)"

text \<open>
  The errors of the validation: the source throws plain \<^verbatim>\<open>Error\<close>s, and the ones of
  its argument checks are those with one of these five messages. Every message of an
  I/O fault starts otherwise.
\<close>

definition is_ValidationError :: "error \<Rightarrow> bool" where
  "is_ValidationError e =
     (e = Error ''Invalid docId provided'' \<or> e = Error ''Invalid title provided'' \<or>
      e = Error ''Invalid data provided'' \<or> e = Error ''Invalid userId provided'' \<or>
      e = Error ''Invalid id provided'')"

definition fails_validation :: "error + 'a \<Rightarrow> bool" where
  "fails_validation r = (case r of Inl e \<Rightarrow> is_ValidationError e | Inr _ \<Rightarrow> False)"

text \<open>
  The ids the check of \<^verbatim>\<open>getById\<close> and \<^verbatim>\<open>delete\<close> lets through, said without \<^verbatim>\<open>typeof\<close>: a
  non-empty string, or a number other than 0 and \<^verbatim>\<open>NaN\<close>.
\<close>

definition id_accepted :: "jsval \<Rightarrow> bool" where
  "id_accepted v =
     (case v of JStr s \<Rightarrow> s \<noteq> [] | JNum n \<Rightarrow> n \<noteq> Finite 0 \<and> n \<noteq> NaN | _ \<Rightarrow> False)"

text \<open>
  Sanitization in the words of the specification: a copy of the same shape, a
  mapping with the same keys, a sequence of the same length, every string leaf with
  each of the five characters replaced by its entity (\<open>esc\<close>), every other scalar
  unchanged.
\<close>

fun spec_sanitize :: "jsval \<Rightarrow> jsval" where
  "spec_sanitize (JStr s) = JStr (concat (map esc s))"
| "spec_sanitize (JArr xs) = JArr (map spec_sanitize xs)"
| "spec_sanitize (JObj kvs) = JObj (map (\<lambda>(k, v). (k, spec_sanitize v)) kvs)"
| "spec_sanitize v = v"

text \<open>
  The elements of a sequence that the amended claim says nothing about: strings and
  sequences.
\<close>

fun no_string_or_array :: "jsval \<Rightarrow> bool" where
  "no_string_or_array (JStr _) = False"
| "no_string_or_array (JArr _) = False"
| "no_string_or_array _ = True"

text \<open>
  Sanitization in the words of the amended claim: as \<open>spec_sanitize\<close>, but a mapping
  loses an own key \<^verbatim>\<open>__proto__\<close>, and an element of a sequence that is a string or a
  sequence becomes \<open>h\<close> of it, for a function \<open>h\<close> that the claim leaves open.
\<close>

fun amended_sanitize :: "(jsval \<Rightarrow> jsval) \<Rightarrow> jsval \<Rightarrow> jsval" where
  "amended_sanitize h (JStr s) = JStr (concat (map esc s))"
| "amended_sanitize h (JArr xs) =
     JArr (map (\<lambda>x. if no_string_or_array x then amended_sanitize h x else h x) xs)"
| "amended_sanitize h (JObj kvs) =
     JObj (map (\<lambda>(k, v). (k, amended_sanitize h v))
            (filter (\<lambda>(k, v). k \<noteq> ''__proto__'') kvs))"
| "amended_sanitize h v = v"

text \<open>
  The values in which no mapping has the key \<^verbatim>\<open>__proto__\<close> and no sequence holds a
  string or a sequence as a direct element.
\<close>

fun plain_arrays :: "jsval \<Rightarrow> bool" where
  "plain_arrays (JObj kvs) = list_all (\<lambda>(k, v). k \<noteq> ''__proto__'' \<and> plain_arrays v) kvs"
| "plain_arrays (JArr xs) = list_all (\<lambda>x. no_string_or_array x \<and> plain_arrays x) xs"
| "plain_arrays _ = True"

text \<open>
  The five characters, and the values that hold one of them raw in a string,
  wherever the string stands.
\<close>

definition is_target :: "char \<Rightarrow> bool" where
  "is_target c =
     (c = CHR ''<'' \<or> c = CHR ''>'' \<or> c = CHR 0x22 \<or> c = CHR 0x27 \<or> c = CHR ''/'')"

fun has_raw :: "jsval \<Rightarrow> bool" where
  "has_raw (JStr s) = list_ex is_target s"
| "has_raw (JArr xs) = list_ex has_raw xs"
| "has_raw (JObj kvs) = list_ex (\<lambda>(k, v). has_raw v) kvs"
| "has_raw v = False"

section \<open>A store with three records\<close>

definition doc1 :: document where
  "doc1 = \<lparr>id_of = 1, docId = ''inv-001'', title = ''Invoice <1>'',
            data = JObj [(''docType'', JStr ''invoice''), (''note'', JStr ''a&#x2F;b'')],
            userId = ''u1'', timestamp = 100, createdAt = ''1970-01-01T00:00:00.100Z'',
            docType = JStr ''invoice''\<rparr>"

definition doc2 :: document where
  "doc2 = \<lparr>id_of = 2, docId = ''memo'', title = ''Memo'', data = JObj [],
            userId = ''u2'', timestamp = 150, createdAt = ''1970-01-01T00:00:00.150Z'',
            docType = JStr ''unknown''\<rparr>"

definition doc3 :: document where
  "doc3 = \<lparr>id_of = 3, docId = ''inv-001'', title = ''Invoice <1>'',
            data = JObj [(''docType'', JStr ''invoice'')],
            userId = ''u1'', timestamp = 200, createdAt = ''1970-01-01T00:00:00.200Z'',
            docType = JStr ''invoice''\<rparr>"

definition exampleDB :: database where
  "exampleDB = \<lparr>records = [doc1, doc2, doc3], keyGen = 4\<rparr>"

section \<open>Sanitization: lemmas\<close>

lemma replace_all_Nil [simp]: "replace_all c r [] = []"
  by (simp add: replace_all_def)

lemma replace_all_Cons [simp]:
  "replace_all c r (x # xs) = (if x = c then r else [x]) @ replace_all c r xs"
  by (simp add: replace_all_def)

lemma replace_all_append [simp]:
  "replace_all c r (xs @ ys) = replace_all c r xs @ replace_all c r ys"
  by (simp add: replace_all_def)

lemma escape_Nil [simp]: "escape [] = []"
  by (simp add: escape_def)

lemma escape_append: "escape (xs @ ys) = escape xs @ escape ys"
  by (simp add: escape_def)

lemma escape_single: "escape [c] = esc c"
  by (simp add: escape_def esc_def)

lemma escape_Cons: "escape (c # cs) = esc c @ escape cs"
  using escape_append [of "[c]" cs] by (simp add: escape_single)

lemma escape_concat_esc: "escape s = concat (map esc s)"
  by (induction s) (simp_all add: escape_Cons)

lemma escape_esc: "escape (esc c) = esc c"
  by (simp add: esc_def escape_Cons)

lemma escape_idem: "escape (escape s) = escape s"
  by (induction s) (simp_all add: escape_Cons escape_append escape_esc)

lemma own_entries_Nil [simp]: "own_entries [] = []"
  by (simp add: own_entries_def)

lemma own_entries_Cons [simp]:
  "own_entries ((k, v) # kvs) = (if k = ''__proto__'' then own_entries kvs else (k, v) # own_entries kvs)"
  by (simp add: own_entries_def)

lemma own_entries_map:
  "own_entries (map (\<lambda>(k, v). (k, f v)) kvs) = map (\<lambda>(k, v). (k, f v)) (own_entries kvs)"
  by (induction kvs) auto

lemma own_entries_idem: "own_entries (own_entries kvs) = own_entries kvs"
  by (simp add: own_entries_def)

lemma set_own_entries: "set (own_entries kvs) \<subseteq> set kvs"
  by (auto simp: own_entries_def)

lemma dec_digits: "set (dec n) \<subseteq> set ''0123456789''"
proof (induction n rule: dec.induct)
  case (1 n)
  have d: "''0123456789'' ! k \<in> set ''0123456789''" if "k < 10" for k
    using that by (intro nth_mem) simp
  show ?case
  proof (cases "n < 10")
    case True
    with d [of n] show ?thesis by (simp add: dec.simps [of n])
  next
    case False
    with 1 d [of "n mod 10"] show ?thesis by (simp add: dec.simps [of n])
  qed
qed

lemma dec_not_proto: "dec n \<noteq> ''__proto__''"
proof
  assume "dec n = ''__proto__''"
  then have "CHR ''_'' \<in> set (dec n)" by simp
  with dec_digits [of n] show False by auto
qed

lemma own_entries_indexed:
  "own_entries (zip (map dec ns) xs) = zip (map dec ns) xs"
  unfolding own_entries_def
  by (rule filter_True) (auto dest!: set_zip_leftD simp: dec_not_proto [symmetric])

lemma sanitizeData_JObj [simp]:
  "sanitizeData (JObj kvs) =
     JObj (map (\<lambda>(key, value). (key, sanitizeValue value)) (own_entries kvs))"
  by (simp add: sanitizeData.simps own_entries_map)

lemma sanitizeData_JArr [simp]:
  "sanitizeData (JArr xs) =
     JObj (map (\<lambda>(key, value). (key, sanitizeValue value)) (zip (map dec [0..<length xs]) xs))"
  by (simp add: sanitizeData.simps own_entries_map own_entries_indexed)

lemma sanitizeData_scalar [simp]:
  "sanitizeData JUndefined = JUndefined"
  "sanitizeData JNull = JNull"
  "sanitizeData (JBool b) = JBool b"
  "sanitizeData (JNum n) = JNum n"
  "sanitizeData (JStr s) = JStr s"
  by (simp_all add: sanitizeData.simps)

lemma sanitizeValue_simps [simp]:
  "sanitizeValue (JStr s) = JStr (escape s)"
  "sanitizeValue (JArr items) = JArr (map sanitizeItem items)"
  "sanitizeValue (JObj kvs) = sanitizeData (JObj kvs)"
  "sanitizeValue JUndefined = JUndefined"
  "sanitizeValue JNull = JNull"
  "sanitizeValue (JBool b) = JBool b"
  "sanitizeValue (JNum n) = JNum n"
  by (simp_all add: sanitizeValue.simps)

lemma sanitizeItem_simps [simp]:
  "sanitizeItem (JStr s) = JStr s"
  "sanitizeItem (JArr items) = sanitizeData (JArr items)"
  "sanitizeItem (JObj kvs) = sanitizeData (JObj kvs)"
  "sanitizeItem JUndefined = JUndefined"
  "sanitizeItem JNull = JNull"
  "sanitizeItem (JBool b) = JBool b"
  "sanitizeItem (JNum n) = JNum n"
  by (simp_all add: sanitizeItem.simps)

lemma sanitizeData_object:
  "truthy d \<and> typeof d = TObject \<Longrightarrow>
   sanitizeData d =
     JObj (map (\<lambda>(key, value). (key, sanitizeValue value)) (own_entries (entries d)))"
  by (simp add: sanitizeData.simps [of d] own_entries_map)

lemma sanitize_idem_all:
  "sanitizeData (sanitizeData d) = sanitizeData d"
  "sanitizeValue (sanitizeValue v) = sanitizeValue v"
  "sanitizeItem (sanitizeItem i) = sanitizeItem i"
proof (induction d and v and i rule: sanitizeData_sanitizeValue_sanitizeItem.induct)
  case (1 d)
  show ?case
  proof (cases "\<not> truthy d \<or> typeof d \<noteq> TObject")
    case True
    then show ?thesis by (simp add: sanitizeData.simps)
  next
    case False
    have "map (\<lambda>(key, value). (key, sanitizeValue value))
            (map (\<lambda>(key, value). (key, sanitizeValue value)) (own_entries (entries d)))
          = map (\<lambda>(key, value). (key, sanitizeValue value)) (own_entries (entries d))"
      using 1 False set_own_entries [of "entries d"] by (auto simp: case_prod_unfold)
    with False show ?thesis
      by (simp add: sanitizeData_object own_entries_map own_entries_idem)
  qed
next
  case (2 v)
  show ?case
  proof (cases v)
    case (JStr s)
    then show ?thesis by (simp add: escape_idem)
  next
    case (JArr items)
    with 2 show ?thesis by simp
  next
    case (JObj kvs)
    with 2 have "sanitizeData (sanitizeData (JObj kvs)) = sanitizeData (JObj kvs)"
      by (simp del: sanitizeData_JObj)
    with JObj show ?thesis by (simp del: sanitizeData_JObj) (simp add: sanitizeValue.simps)
  qed simp_all
next
  case (3 i)
  show ?case
  proof (cases i)
    case (JArr items)
    with 3 have "sanitizeData (sanitizeData (JArr items)) = sanitizeData (JArr items)"
      by (simp del: sanitizeData_JArr)
    with JArr show ?thesis by (simp del: sanitizeData_JArr) (simp add: sanitizeItem.simps)
  next
    case (JObj kvs)
    with 3 have "sanitizeData (sanitizeData (JObj kvs)) = sanitizeData (JObj kvs)"
      by (simp del: sanitizeData_JObj)
    with JObj show ?thesis by (simp del: sanitizeData_JObj) (simp add: sanitizeItem.simps)
  qed simp_all
qed

lemma esc_no_target: "c \<in> set (esc x) \<Longrightarrow> \<not> is_target c"
  by (auto simp: esc_def is_target_def split: if_splits)

lemma escape_no_target: "\<not> list_ex is_target (escape s)"
  by (auto simp: escape_concat_esc list_ex_iff dest: esc_no_target)




lemma sanitizeValue_amended_aux:
  "h = sanitizeItem \<Longrightarrow> sanitizeValue v = amended_sanitize h v"
proof (induction h v rule: amended_sanitize.induct)
  case (1 h s)
  show ?case by (simp add: escape_concat_esc)
next
  case (2 h xs)
  have "map sanitizeItem xs =
        map (\<lambda>x. if no_string_or_array x then amended_sanitize h x else h x) xs"
  proof (rule map_cong [OF refl])
    fix x assume x: "x \<in> set xs"
    show "sanitizeItem x = (if no_string_or_array x then amended_sanitize h x else h x)"
    proof (cases "no_string_or_array x")
      case True
      with 2 x have "sanitizeValue x = amended_sanitize h x" by simp
      with True show ?thesis by (cases x) simp_all
    next
      case False
      with 2(2) show ?thesis by simp
    qed
  qed
  then show ?case by simp
next
  case (3 h kvs)
  have "map (\<lambda>(key, value). (key, sanitizeValue value)) (own_entries kvs) =
        map (\<lambda>(k, v). (k, amended_sanitize h v)) (filter (\<lambda>(k, v). k \<noteq> ''__proto__'') kvs)"
    using 3 by (auto simp: own_entries_def)
  then show ?case by simp
qed simp_all

lemma sanitizeValue_amended: "sanitizeValue v = amended_sanitize sanitizeItem v"
  by (rule sanitizeValue_amended_aux [OF refl])

lemma amended_is_spec: "plain_arrays v \<Longrightarrow> amended_sanitize h v = spec_sanitize v"
proof (induction v rule: spec_sanitize.induct)
  case (2 xs)
  then have "map (\<lambda>x. if no_string_or_array x then amended_sanitize h x else h x) xs =
             map spec_sanitize xs"
    by (auto simp: list_all_iff)
  then show ?case by simp
next
  case (3 kvs)
  from 3(2) have "filter (\<lambda>(k, v). k \<noteq> ''__proto__'') kvs = kvs"
    by (auto simp: list_all_iff intro!: filter_True)
  moreover have "map (\<lambda>(k, v). (k, amended_sanitize h v)) kvs =
        map (\<lambda>(k, v). (k, spec_sanitize v)) kvs"
    using 3 by (auto simp: list_all_iff)
  ultimately show ?case by simp
qed simp_all

lemma sanitizeData_not_structured: "\<not> spec_structured v \<Longrightarrow> sanitizeData v = v"
  by (cases v) (simp_all add: spec_structured_def)

lemma sanitizeData_keys:
  "\<exists>kvs'. sanitizeData (JObj kvs) = JObj kvs' \<and>
     map fst kvs' = filter (\<lambda>k. k \<noteq> ''__proto__'') (map fst kvs)"
  by (simp add: own_entries_def filter_map comp_def case_prod_unfold)




section \<open>The operations: lemmas\<close>

lemma nonempty_string_check: "spec_nonempty_string v = (truthy v \<and> typeof v = TString)"
  by (cases v) (simp_all add: spec_nonempty_string_def)

lemma structured_check: "spec_structured v = (truthy v \<and> typeof v = TObject)"
  by (cases v) (simp_all add: spec_structured_def)

lemma id_check: "id_accepted v = (truthy v \<and> (typeof v = TString \<or> typeof v = TNumber))"
  by (cases v) (simp_all add: id_accepted_def)

lemma initDB_IoOk [simp]: "initDB IoOk = Inr ()"
  by (simp add: initDB_def)

lemma save_IoOk:
  assumes "spec_nonempty_string d" and "spec_nonempty_string t" and "spec_structured x"
    and "spec_nonempty_string u"
  shows "save IoOk now ts db d t x u =
     (Inr (keyGen db),
      db\<lparr>records := records db @
           [\<lparr>id_of = keyGen db, docId = trim (str_of d), title = trim (str_of t),
             data = sanitizeData x, userId = trim (str_of u), timestamp = now,
             createdAt = ts,
             docType = js_or (js_get x ''docType'') (JStr ''unknown'')\<rparr>],
         keyGen := Suc (keyGen db)\<rparr>)"
  using assms by (simp add: save_def nonempty_string_check structured_check Let_def)

lemma getById_IoOk: "id_accepted i \<Longrightarrow> getById IoOk db i = Inr (store_get db i)"
  by (simp add: getById_def id_check)

lemma delete_IoOk: "id_accepted i \<Longrightarrow> delete IoOk db i = (Inr (), store_delete db i)"
  by (simp add: delete_def id_check)

lemma getByUser_IoOk:
  "spec_nonempty_string u \<Longrightarrow>
   getByUser IoOk db u = Inr (sortByTimestampDesc (index_getAll db (trim (str_of u))))"
  by (simp add: getByUser_def nonempty_string_check)

lemma key_eq_of_nat [simp]: "key_eq (JNum (Finite (of_nat k))) j = (k = j)"
  by simp

lemma id_accepted_of_nat [simp]: "id_accepted (JNum (Finite (of_nat k))) = (0 < k)"
  by (simp add: id_accepted_def)

lemma find_append_fresh: "\<forall>x\<in>set xs. \<not> P x \<Longrightarrow> P y \<Longrightarrow> find P (xs @ [y]) = Some y"
  by (induction xs) auto

lemma sorted_sortByTimestampDesc:
  "sorted_wrt (\<lambda>a b. timestamp b \<le> timestamp a) (sortByTimestampDesc docs)"
proof -
  have "sorted (map (\<lambda>d. - timestamp d) (sort_key (\<lambda>d. - timestamp d) docs))"
    by (rule sorted_sort_key)
  then show ?thesis by (simp add: sortByTimestampDesc_def sorted_map)
qed

lemma mset_sortByTimestampDesc [simp]: "mset (sortByTimestampDesc docs) = mset docs"
  by (simp add: sortByTimestampDesc_def)

lemma set_sortByTimestampDesc [simp]: "set (sortByTimestampDesc docs) = set docs"
  by (simp add: sortByTimestampDesc_def)

lemma length_sortByTimestampDesc [simp]: "length (sortByTimestampDesc docs) = length docs"
  by (simp add: sortByTimestampDesc_def)

lemma sortByTimestampDesc_Nil [simp]: "sortByTimestampDesc [] = []"
  by (simp add: sortByTimestampDesc_def)

lemma store_delete_absent:
  "\<forall>d\<in>set (records db). \<not> key_eq i (id_of d) \<Longrightarrow> store_delete db i = db"
  by (simp add: store_delete_def)

lemma store_delete_idem: "store_delete (store_delete db i) i = store_delete db i"
  by (simp add: store_delete_def)

lemma store_get_absent:
  "\<forall>d\<in>set (records db). \<not> key_eq i (id_of d) \<Longrightarrow> store_get db i = None"
  by (simp add: store_get_def find_None_iff)

lemma getById_isl: "id_accepted i \<Longrightarrow> isl (getById io db i) = (io \<noteq> IoOk)"
  by (cases io) (simp_all add: getById_def id_check initDB_def)

lemma map_of_map_value:
  "map_of (map (\<lambda>(k, v). (k, f v)) kvs) k = map_option f (map_of kvs k)"
  by (induction kvs) auto

lemma map_of_own_entries:
  "k \<noteq> ''__proto__'' \<Longrightarrow> map_of (own_entries kvs) k = map_of kvs k"
  by (induction kvs) auto

lemma js_get_sanitizeData:
  assumes "spec_structured x" and "k \<noteq> ''__proto__''"
  shows "js_get (sanitizeData x) k = sanitizeValue (js_get x k)"
proof -
  from assms(1) have "truthy x \<and> typeof x = TObject"
    by (simp add: structured_check)
  then have "js_get (sanitizeData x) k =
          (case map_option sanitizeValue (map_of (entries x) k) of
             Some y \<Rightarrow> y | None \<Rightarrow> JUndefined)"
    using assms(2)
    by (simp add: sanitizeData_object js_get_def map_of_map_value map_of_own_entries)
  also have "\<dots> = sanitizeValue (js_get x k)"
    by (simp add: js_get_def split: option.splits)
  finally show ?thesis .
qed

lemma delete_accepted_key:
  "0 < k \<Longrightarrow> delete IoOk db (JNum (Finite (of_nat k))) =
     (Inr (), db\<lparr>records := filter (\<lambda>d. id_of d \<noteq> k) (records db)\<rparr>)"
  by (simp add: delete_IoOk store_delete_def eq_commute)

lemma deleteEach_IoOk:
  "\<forall>d\<in>set docs. 0 < id_of d \<Longrightarrow>
   deleteEach (\<lambda>_. IoOk) db docs =
     (replicate (length docs) (Inr ()),
      db\<lparr>records := filter (\<lambda>d. id_of d \<notin> id_of ` set docs) (records db)\<rparr>)"
proof (induction docs arbitrary: db)
  case Nil
  then show ?case by simp
next
  case (Cons doc docs)
  then show ?case
    by (simp add: delete_accepted_key conj_commute)
qed

lemma promise_all_replicate [simp]: "promise_all (replicate n (Inr ())) = Inr ()"
  by (induction n) simp_all

lemma filter_other_ids:
  assumes "distinct (map id_of xs)"
  shows "filter (\<lambda>d. id_of d \<notin> id_of ` set (filter P xs)) xs = filter (\<lambda>d. \<not> P d) xs"
proof (rule filter_cong [OF refl])
  fix d assume d: "d \<in> set xs"
  from assms have "inj_on id_of (set xs)"
    by (simp add: distinct_map)
  with d have "id_of d \<in> id_of ` set (filter P xs) \<longleftrightarrow> P d"
    by (auto dest: inj_onD)
  then show "(id_of d \<notin> id_of ` set (filter P xs)) = (\<not> P d)" by simp
qed

lemmas eval_defs = wf_db_def emptyDB_def exampleDB_def doc1_def doc2_def doc3_def
  spec_nonempty_string_def spec_structured_def id_accepted_def trim_def is_ws_def escape_def

subsection \<open>The states the operations reach\<close>

lemma wf_db_emptyDB: "wf_db emptyDB"
  by (simp add: wf_db_def emptyDB_def)

lemma wf_db_save: "wf_db db \<Longrightarrow> wf_db (snd (save io now ts db d t x u))"
  by (cases io)
    (auto simp: save_def initDB_def wf_db_def Let_def list_all_iff elim: less_SucI)

lemma wf_db_store_delete: "wf_db db \<Longrightarrow> wf_db (store_delete db i)"
  by (auto simp: wf_db_def store_delete_def list_all_iff distinct_map_filter)

lemma wf_db_delete: "wf_db db \<Longrightarrow> wf_db (snd (delete io db i))"
  by (cases io) (simp_all add: delete_def initDB_def wf_db_store_delete)

lemma wf_db_deleteEach: "wf_db db \<Longrightarrow> wf_db (snd (deleteEach ios db docs))"
proof (induction docs arbitrary: db)
  case Nil
  then show ?case by simp
next
  case (Cons doc docs)
  from Cons.prems
  have "wf_db (snd (delete (ios (id_of doc)) db (JNum (Finite (of_nat (id_of doc))))))"
    by (rule wf_db_delete)
  from Cons.IH [OF this] show ?case
    by (simp add: case_prod_unfold)
qed

lemma wf_db_clearUserDocuments:
  "wf_db db \<Longrightarrow> wf_db (snd (clearUserDocuments io ios db u))"
  using wf_db_deleteEach [of db ios]
  by (auto simp: clearUserDocuments_def case_prod_unfold split: sum.splits)

section \<open>The operations: theorems\<close>

text \<open>
  C1. For every valid call of \<open>save\<close> (a non-empty string \<open>docId\<close>, \<open>title\<close> and \<open>userId\<close>,
  a structured \<open>data\<close>) whose I/O succeeds, on a store the operations have reached,
  \<open>save\<close> returns an id, and \<open>getById\<close> on that id returns a record whose \<open>docId\<close>,
  \<open>title\<close> and \<open>userId\<close> are the trimmed arguments and whose \<open>data\<close> is
  \<open>sanitizeData data\<close>. The title is trimmed only: it is stored unsanitized.
\<close>

theorem save_then_getById:
  assumes "wf_db db"
    and "spec_nonempty_string d" and "spec_nonempty_string t" and "spec_structured x"
    and "spec_nonempty_string u"
  shows "\<exists>k db' r. save IoOk now ts db d t x u = (Inr k, db') \<and>
           getById IoOk db' (JNum (Finite (of_nat k))) = Inr (Some r) \<and>
           id_of r = k \<and>
           docId r = trim (str_of d) \<and> title r = trim (str_of t) \<and>
           userId r = trim (str_of u) \<and> data r = sanitizeData x"
proof -
  let ?r = "\<lparr>id_of = keyGen db, docId = trim (str_of d), title = trim (str_of t),
             data = sanitizeData x, userId = trim (str_of u), timestamp = now,
             createdAt = ts,
             docType = js_or (js_get x ''docType'') (JStr ''unknown'')\<rparr>"
  let ?db = "db\<lparr>records := records db @ [?r], keyGen := Suc (keyGen db)\<rparr>"
  from assms(1) have pos: "0 < keyGen db"
    and fresh: "\<forall>y\<in>set (records db). id_of y \<noteq> keyGen db"
    by (auto simp: wf_db_def list_all_iff)
  have s: "save IoOk now ts db d t x u = (Inr (keyGen db), ?db)"
    using assms(2-5) by (rule save_IoOk)
  have "find (\<lambda>y. key_eq (JNum (Finite (of_nat (keyGen db)))) (id_of y)) (records db @ [?r])
          = Some ?r"
    using fresh by (intro find_append_fresh) auto
  then have "store_get ?db (JNum (Finite (of_nat (keyGen db)))) = Some ?r"
    by (simp add: store_get_def)
  with pos have g: "getById IoOk ?db (JNum (Finite (of_nat (keyGen db)))) = Inr (Some ?r)"
    by (simp add: getById_IoOk)
  from s g show ?thesis by simp
qed

theorem save_then_getById_witness:
  "wf_db emptyDB \<and> spec_nonempty_string (JStr ''inv-001'') \<and>
   spec_nonempty_string (JStr ''Invoice <1>'') \<and>
   spec_structured (JObj [(''docType'', JStr ''invoice''), (''note'', JStr ''a/b'')]) \<and>
   spec_nonempty_string (JStr '' u1 '') \<and>
   (\<exists>k db' r.
      save IoOk 1700000000000 ''2023-11-14T22:13:20.000Z'' emptyDB (JStr ''inv-001'')
        (JStr ''Invoice <1>'')
        (JObj [(''docType'', JStr ''invoice''), (''note'', JStr ''a/b'')]) (JStr '' u1 '')
        = (Inr k, db') \<and>
      getById IoOk db' (JNum (Finite (of_nat k))) = Inr (Some r) \<and>
      id_of r = k \<and> docId r = ''inv-001'' \<and> title r = ''Invoice <1>'' \<and> userId r = ''u1'' \<and>
      data r = JObj [(''docType'', JStr ''invoice''), (''note'', JStr ''a&#x2F;b'')])"
  using save_then_getById [of emptyDB "JStr ''inv-001''" "JStr ''Invoice <1>''"
      "JObj [(''docType'', JStr ''invoice''), (''note'', JStr ''a/b'')]" "JStr '' u1 ''"
      1700000000000 "''2023-11-14T22:13:20.000Z''"]
  by (simp add: eval_defs)

text \<open>
  C4. For every non-empty string \<open>userId\<close>, when the I/O succeeds, \<open>getByUser\<close> returns
  exactly the records whose \<open>userId\<close> field equals the trimmed argument (each as often
  as the store holds it), in non-increasing order of \<open>timestamp\<close>; when no record
  matches it returns the empty sequence, not an error.
\<close>

theorem getByUser_sorted:
  assumes "spec_nonempty_string u"
  shows "\<exists>docs. getByUser IoOk db u = Inr docs \<and>
           mset docs = mset (filter (\<lambda>d. userId d = trim (str_of u)) (records db)) \<and>
           sorted_wrt (\<lambda>a b. timestamp b \<le> timestamp a) docs \<and>
           (filter (\<lambda>d. userId d = trim (str_of u)) (records db) = [] \<longrightarrow> docs = [])"
  using assms
  by (simp add: getByUser_IoOk index_getAll_def sorted_sortByTimestampDesc)

theorem getByUser_sorted_witness:
  "spec_nonempty_string (JStr ''u1 '') \<and>
   (\<exists>docs. getByUser IoOk exampleDB (JStr ''u1 '') = Inr docs \<and>
      mset docs = mset [doc1, doc3] \<and>
      sorted_wrt (\<lambda>a b. timestamp b \<le> timestamp a) docs) \<and>
   getByUser IoOk exampleDB (JStr ''u1 '') = Inr [doc3, doc1] \<and>
   spec_nonempty_string (JStr ''nobody'') \<and>
   getByUser IoOk exampleDB (JStr ''nobody'') = Inr []"
proof -
  have u: "spec_nonempty_string (JStr ''u1 '')" and n: "spec_nonempty_string (JStr ''nobody'')"
    by (simp_all add: spec_nonempty_string_def)
  have f: "filter (\<lambda>d. userId d = trim (str_of (JStr ''u1 ''))) (records exampleDB) = [doc1, doc3]"
    by (simp add: eval_defs)
  have g: "filter (\<lambda>d. userId d = trim (str_of (JStr ''nobody''))) (records exampleDB) = []"
    by (simp add: eval_defs)
  have s: "sortByTimestampDesc [doc1, doc3] = [doc3, doc1]"
    by (simp add: sortByTimestampDesc_def doc1_def doc3_def)
  have a: "\<exists>docs. getByUser IoOk exampleDB (JStr ''u1 '') = Inr docs \<and>
      mset docs = mset [doc1, doc3] \<and> sorted_wrt (\<lambda>a b. timestamp b \<le> timestamp a) docs"
    using getByUser_sorted [OF u, of exampleDB, unfolded f] by blast
  have b: "getByUser IoOk exampleDB (JStr ''u1 '') = Inr [doc3, doc1]"
    using f s by (simp add: getByUser_IoOk [OF u] index_getAll_def)
  have c: "getByUser IoOk exampleDB (JStr ''nobody'') = Inr []"
    using getByUser_sorted [OF n, of exampleDB, unfolded g] by auto
  from u n a b c show ?thesis by blast
qed

text \<open>
  C6. For every non-empty string \<open>userId\<close>, on a store the operations have reached,
  when the read and every delete succeed and nothing else writes in between,
  \<open>clearUserDocuments\<close> returns the number of that user's records at the time of its
  read and leaves a store with the other users' records only, on which \<open>getByUser\<close> for
  the same \<open>userId\<close> returns the empty sequence.
\<close>

theorem clearUserDocuments_clears:
  assumes "wf_db db" and "spec_nonempty_string u"
  shows "\<exists>db'. clearUserDocuments IoOk (\<lambda>_. IoOk) db u =
             (Inr (length (filter (\<lambda>d. userId d = trim (str_of u)) (records db))), db') \<and>
           records db' = filter (\<lambda>d. userId d \<noteq> trim (str_of u)) (records db) \<and>
           getByUser IoOk db' u = Inr []"
proof -
  let ?P = "\<lambda>d. userId d = trim (str_of u)"
  let ?docs = "sortByTimestampDesc (filter ?P (records db))"
  let ?db = "db\<lparr>records := filter (\<lambda>d. \<not> ?P d) (records db)\<rparr>"
  from assms(1) have pos: "\<forall>d\<in>set ?docs. 0 < id_of d"
    and dist: "distinct (map id_of (records db))"
    by (auto simp: wf_db_def list_all_iff)
  have "deleteEach (\<lambda>_. IoOk) db ?docs = (replicate (length ?docs) (Inr ()), ?db)"
    using deleteEach_IoOk [OF pos, of db] filter_other_ids [OF dist, of ?P] by simp
  with assms(2)
  have c: "clearUserDocuments IoOk (\<lambda>_. IoOk) db u =
             (Inr (length (filter ?P (records db))), ?db)"
    by (simp add: clearUserDocuments_def getByUser_IoOk index_getAll_def nonempty_string_check)
  have g: "getByUser IoOk ?db u = Inr []"
    using assms(2) by (simp add: getByUser_IoOk index_getAll_def)
  from c g show ?thesis by simp
qed

theorem clearUserDocuments_clears_witness:
  "wf_db exampleDB \<and> spec_nonempty_string (JStr ''u1'') \<and>
   (\<exists>db'. clearUserDocuments IoOk (\<lambda>_. IoOk) exampleDB (JStr ''u1'') = (Inr 2, db') \<and>
      records db' = [doc2] \<and> getByUser IoOk db' (JStr ''u1'') = Inr [])"
proof -
  have w: "wf_db exampleDB" and u: "spec_nonempty_string (JStr ''u1'')"
    by (simp_all add: eval_defs)
  have f: "filter (\<lambda>d. userId d = trim (str_of (JStr ''u1''))) (records exampleDB) = [doc1, doc3]"
    by (simp add: eval_defs)
  have g: "filter (\<lambda>d. userId d \<noteq> trim (str_of (JStr ''u1''))) (records exampleDB) = [doc2]"
    by (simp add: eval_defs)
  from clearUserDocuments_clears [OF w u, unfolded f g] w u show ?thesis
    by (simp add: numeral_2_eq_2)
qed

text \<open>
  C8, as the claim states it, fails at the id 0: it is an integer, so a valid id in
  the words of the specification, it names no record, and \<open>delete\<close> throws the error of
  the validation.
\<close>

theorem delete_zero_fails:
  "spec_id (JNum (Finite 0)) \<and> store_get exampleDB (JNum (Finite 0)) = None \<and>
   delete IoOk exampleDB (JNum (Finite 0)) = (Inl (Error ''Invalid id provided''), exampleDB) \<and>
   is_ValidationError (Error ''Invalid id provided'')"
  by (simp add: spec_id_def spec_integer_def delete_def store_get_def exampleDB_def
      doc1_def doc2_def doc3_def is_ValidationError_def)

text \<open>
  C8, amended. For every id that is a non-empty string or a number other than 0 and
  \<^verbatim>\<open>NaN\<close> (the ids the check of \<open>delete\<close> accepts) and that names no record, \<open>delete\<close>
  succeeds when its I/O does and leaves the store as it was; and for every such id,
  naming a record or not, deleting a second time succeeds and changes nothing more.
\<close>

theorem delete_absent_succeeds:
  assumes "id_accepted i"
  shows "((\<forall>d\<in>set (records db). \<not> key_eq i (id_of d)) \<longrightarrow> delete IoOk db i = (Inr (), db)) \<and>
         (\<exists>db'. delete IoOk db i = (Inr (), db') \<and> delete IoOk db' i = (Inr (), db'))"
  using assms by (simp add: delete_IoOk store_delete_absent store_delete_idem)

theorem delete_absent_succeeds_witness:
  "id_accepted (JNum (Finite 7)) \<and> id_accepted (JStr ''doesnotexist'') \<and>
   delete IoOk exampleDB (JNum (Finite 7)) = (Inr (), exampleDB) \<and>
   delete IoOk exampleDB (JStr ''doesnotexist'') = (Inr (), exampleDB) \<and>
   (\<exists>db'. delete IoOk exampleDB (JNum (Finite 3)) = (Inr (), db') \<and>
      delete IoOk db' (JNum (Finite 3)) = (Inr (), db'))"
proof -
  have a: "id_accepted (JNum (Finite 7))" and b: "id_accepted (JStr ''doesnotexist'')"
    and c: "id_accepted (JNum (Finite 3))"
    by (simp_all add: id_accepted_def)
  have n: "\<forall>d\<in>set (records exampleDB). \<not> key_eq (JNum (Finite 7)) (id_of d)"
    and m: "\<forall>d\<in>set (records exampleDB). \<not> key_eq (JStr ''doesnotexist'') (id_of d)"
    by (simp_all add: exampleDB_def doc1_def doc2_def doc3_def)
  from delete_absent_succeeds [OF a, of exampleDB] n
  have d7: "delete IoOk exampleDB (JNum (Finite 7)) = (Inr (), exampleDB)" by blast
  from delete_absent_succeeds [OF b, of exampleDB] m
  have ds: "delete IoOk exampleDB (JStr ''doesnotexist'') = (Inr (), exampleDB)" by blast
  from delete_absent_succeeds [OF c, of exampleDB]
  have d3: "\<exists>db'. delete IoOk exampleDB (JNum (Finite 3)) = (Inr (), db') \<and>
      delete IoOk db' (JNum (Finite 3)) = (Inr (), db')" by blast
  from a b d7 ds d3 show ?thesis by blast
qed

text \<open>
  C9, as the claim states it, fails at the id 0: it is an integer, so a valid id in
  the words of the specification, no record has it, and \<open>getById\<close> throws the error of
  the validation instead of resolving to \<^verbatim>\<open>null\<close>.
\<close>

theorem getById_zero_fails:
  "spec_id (JNum (Finite 0)) \<and> store_get exampleDB (JNum (Finite 0)) = None \<and>
   getById IoOk exampleDB (JNum (Finite 0)) = Inl (Error ''Invalid id provided'') \<and>
   is_ValidationError (Error ''Invalid id provided'')"
  by (simp add: spec_id_def spec_integer_def getById_def store_get_def exampleDB_def
      doc1_def doc2_def doc3_def is_ValidationError_def)

text \<open>
  C9, amended. For every id that is a non-empty string or a number other than 0 and
  \<^verbatim>\<open>NaN\<close> (the ids the check of \<open>getById\<close> accepts) and that names no record, \<open>getById\<close>
  resolves to \<^verbatim>\<open>null\<close> (\<open>Inr None\<close>, a value and not an error) when its I/O succeeds; and
  whether \<open>getById\<close> fails on such an id depends on its I/O alone, not on the store.
\<close>

theorem getById_absent_null:
  assumes "id_accepted i" and "\<forall>d\<in>set (records db). \<not> key_eq i (id_of d)"
  shows "getById IoOk db i = Inr None \<and> (\<forall>io. isl (getById io db i) = (io \<noteq> IoOk))"
  using assms by (simp add: getById_IoOk store_get_absent getById_isl)

theorem getById_absent_null_witness:
  "id_accepted (JStr ''doesnotexist'') \<and>
   getById IoOk exampleDB (JStr ''doesnotexist'') = Inr None \<and>
   isl (getById (RequestFails None) exampleDB (JStr ''doesnotexist''))"
proof -
  have a: "id_accepted (JStr ''doesnotexist'')"
    by (simp add: id_accepted_def)
  have m: "\<forall>d\<in>set (records exampleDB). \<not> key_eq (JStr ''doesnotexist'') (id_of d)"
    by simp
  from getById_absent_null [OF a m] a show ?thesis by simp
qed

text \<open>
  C10. For every valid call of \<open>save\<close> whose I/O succeeds, the record appended to the
  store has as \<open>docType\<close> the raw \<^verbatim>\<open>data.docType\<close> when that value is truthy and
  \<^verbatim>\<open>'unknown'\<close> otherwise, while the copy inside the stored \<open>data\<close> is the sanitized one:
  a non-empty string \<^verbatim>\<open>data.docType\<close> is stored unescaped in \<open>docType\<close> and escaped in
  \<open>data\<close>, and an empty string is recorded as \<^verbatim>\<open>'unknown'\<close>, as an absent one is.
\<close>

theorem save_docType_raw:
  assumes "spec_nonempty_string d" and "spec_nonempty_string t" and "spec_structured x"
    and "spec_nonempty_string u"
  shows "\<exists>k r. save IoOk now ts db d t x u =
             (Inr k, db\<lparr>records := records db @ [r], keyGen := Suc (keyGen db)\<rparr>) \<and>
           docType r = (if truthy (js_get x ''docType'') then js_get x ''docType''
                        else JStr ''unknown'') \<and>
           js_get (data r) ''docType'' = sanitizeValue (js_get x ''docType'') \<and>
           (\<forall>s. js_get x ''docType'' = JStr s \<and> s \<noteq> [] \<longrightarrow>
                docType r = JStr s \<and> js_get (data r) ''docType'' = JStr (escape s)) \<and>
           (js_get x ''docType'' = JStr [] \<or> js_get x ''docType'' = JUndefined \<longrightarrow>
                docType r = JStr ''unknown'')"
proof -
  let ?r = "\<lparr>id_of = keyGen db, docId = trim (str_of d), title = trim (str_of t),
             data = sanitizeData x, userId = trim (str_of u), timestamp = now,
             createdAt = ts,
             docType = js_or (js_get x ''docType'') (JStr ''unknown'')\<rparr>"
  have s: "save IoOk now ts db d t x u =
      (Inr (keyGen db), db\<lparr>records := records db @ [?r], keyGen := Suc (keyGen db)\<rparr>)"
    using assms by (rule save_IoOk)
  have t: "docType ?r = (if truthy (js_get x ''docType'') then js_get x ''docType''
                        else JStr ''unknown'')"
    by (simp add: js_or_def)
  have c: "js_get (data ?r) ''docType'' = sanitizeValue (js_get x ''docType'')"
    using assms(3) by (simp add: js_get_sanitizeData)
  have e: "\<forall>s. js_get x ''docType'' = JStr s \<and> s \<noteq> [] \<longrightarrow>
                docType ?r = JStr s \<and> js_get (data ?r) ''docType'' = JStr (escape s)"
    using c by (simp add: js_or_def)
  have f: "js_get x ''docType'' = JStr [] \<or> js_get x ''docType'' = JUndefined \<longrightarrow>
                docType ?r = JStr ''unknown''"
    by (auto simp: js_or_def)
  from s t c e f show ?thesis by blast
qed

theorem save_docType_raw_witness:
  "spec_nonempty_string (JStr ''d1'') \<and> spec_nonempty_string (JStr ''T'') \<and>
   spec_structured (JObj [(''docType'', JStr ''<b>'')]) \<and>
   spec_structured (JObj [(''docType'', JStr [])]) \<and>
   spec_nonempty_string (JStr ''u1'') \<and>
   (\<exists>k r. save IoOk 5 ''iso'' emptyDB (JStr ''d1'') (JStr ''T'')
             (JObj [(''docType'', JStr ''<b>'')]) (JStr ''u1'')
           = (Inr k, emptyDB\<lparr>records := records emptyDB @ [r],
                            keyGen := Suc (keyGen emptyDB)\<rparr>) \<and>
      docType r = JStr ''<b>'' \<and> js_get (data r) ''docType'' = JStr ''&lt;b&gt;'') \<and>
   (\<exists>k r. save IoOk 5 ''iso'' emptyDB (JStr ''d1'') (JStr ''T'')
             (JObj [(''docType'', JStr [])]) (JStr ''u1'')
           = (Inr k, emptyDB\<lparr>records := records emptyDB @ [r],
                            keyGen := Suc (keyGen emptyDB)\<rparr>) \<and>
      docType r = JStr ''unknown'')"
proof -
  have d: "spec_nonempty_string (JStr ''d1'')" and t: "spec_nonempty_string (JStr ''T'')"
    and u: "spec_nonempty_string (JStr ''u1'')"
    and x: "spec_structured (JObj [(''docType'', JStr ''<b>'')])"
    and y: "spec_structured (JObj [(''docType'', JStr [])])"
    by (simp_all add: spec_nonempty_string_def spec_structured_def)
  have gx: "js_get (JObj [(''docType'', JStr ''<b>'')]) ''docType'' = JStr ''<b>''"
    and gy: "js_get (JObj [(''docType'', JStr [])]) ''docType'' = JStr []"
    by (simp_all add: js_get_def)
  have e: "escape ''<b>'' = ''&lt;b&gt;''"
    by (simp add: escape_def)
  from save_docType_raw [OF d t x u, of 5 "''iso''" emptyDB, unfolded gx]
  obtain k r where
    "save IoOk 5 ''iso'' emptyDB (JStr ''d1'') (JStr ''T'')
       (JObj [(''docType'', JStr ''<b>'')]) (JStr ''u1'')
     = (Inr k, emptyDB\<lparr>records := records emptyDB @ [r], keyGen := Suc (keyGen emptyDB)\<rparr>)"
    and "docType r = JStr ''<b>''" and "js_get (data r) ''docType'' = JStr (escape ''<b>'')"
    by auto
  then have a: "\<exists>k r. save IoOk 5 ''iso'' emptyDB (JStr ''d1'') (JStr ''T'')
             (JObj [(''docType'', JStr ''<b>'')]) (JStr ''u1'')
           = (Inr k, emptyDB\<lparr>records := records emptyDB @ [r],
                            keyGen := Suc (keyGen emptyDB)\<rparr>) \<and>
      docType r = JStr ''<b>'' \<and> js_get (data r) ''docType'' = JStr ''&lt;b&gt;''"
    unfolding e by blast
  from save_docType_raw [OF d t y u, of 5 "''iso''" emptyDB, unfolded gy]
  have b: "\<exists>k r. save IoOk 5 ''iso'' emptyDB (JStr ''d1'') (JStr ''T'')
             (JObj [(''docType'', JStr [])]) (JStr ''u1'')
           = (Inr k, emptyDB\<lparr>records := records emptyDB @ [r],
                            keyGen := Suc (keyGen emptyDB)\<rparr>) \<and>
      docType r = JStr ''unknown''"
    by auto
  from d t x y u a b show ?thesis by blast
qed

lemma floor_three_halves: "\<lfloor>(3::rat) / 2\<rfloor> = 1"
  by (rule floor_unique) simp_all

lemma not_integer_three_halves: "\<not> spec_integer (JNum (Finite (3 / 2)))"
  using floor_three_halves by (simp add: spec_integer_def del: floor_divide_eq_div_numeral)

text \<open>
  C7, as the claim states it, fails in both directions: the integer 0 is an integer
  and \<open>getById\<close> and \<open>delete\<close> reject it with the error of the validation, and the
  number 3/2 is neither a non-empty string nor an integer and both accept it.
\<close>

theorem id_zero_rejected:
  "spec_id (JNum (Finite 0)) \<and>
   getById IoOk emptyDB (JNum (Finite 0)) = Inl (Error ''Invalid id provided'') \<and>
   delete IoOk emptyDB (JNum (Finite 0)) = (Inl (Error ''Invalid id provided''), emptyDB) \<and>
   is_ValidationError (Error ''Invalid id provided'') \<and>
   \<not> spec_id (JNum (Finite (3 / 2))) \<and>
   getById IoOk emptyDB (JNum (Finite (3 / 2))) = Inr None \<and>
   delete IoOk emptyDB (JNum (Finite (3 / 2))) = (Inr (), emptyDB)"
  using not_integer_three_halves
  by (simp add: spec_id_def spec_nonempty_string_def getById_def delete_def
      is_ValidationError_def store_get_def store_delete_def emptyDB_def)
    (simp add: spec_integer_def)

text \<open>
  C7, amended. \<open>getById\<close> and \<open>delete\<close> fail with the error of the validation exactly
  on the ids that are neither a non-empty string nor a number other than 0 and
  \<^verbatim>\<open>NaN\<close>: every non-empty string and every such number, integer or not, is accepted
  whatever the I/O does; 0, \<^verbatim>\<open>NaN\<close>, the empty string, \<^verbatim>\<open>null\<close>, \<^verbatim>\<open>undefined\<close>, booleans,
  arrays and objects are rejected.
\<close>

theorem id_validation:
  "fails_validation (getById io db i) = (\<not> id_accepted i) \<and>
   fails_validation (fst (delete io db i)) = (\<not> id_accepted i)"
proof (cases "id_accepted i")
  case True
  then show ?thesis
    by (cases io)
      (simp_all add: getById_def delete_def id_check initDB_def fails_validation_def
        is_ValidationError_def)
next
  case False
  then show ?thesis
    by (simp add: getById_def delete_def id_check fails_validation_def is_ValidationError_def)
qed

theorem id_validation_witness:
  "fails_validation (getById IoOk exampleDB JNull) \<and>
   fails_validation (fst (delete IoOk exampleDB (JStr []))) \<and>
   fails_validation (getById IoOk exampleDB (JNum NaN)) \<and>
   \<not> fails_validation (getById IoOk exampleDB (JNum (Finite 3))) \<and>
   \<not> fails_validation (getById (OpenFails None) exampleDB (JStr ''a'')) \<and>
   \<not> fails_validation (fst (delete IoOk exampleDB (JNum PosInfinity)))"
  using id_validation [of IoOk exampleDB JNull] id_validation [of IoOk exampleDB "JStr []"]
    id_validation [of IoOk exampleDB "JNum NaN"]
    id_validation [of IoOk exampleDB "JNum (Finite 3)"]
    id_validation [of "OpenFails None" exampleDB "JStr ''a''"]
    id_validation [of IoOk exampleDB "JNum PosInfinity"]
  by (simp add: id_accepted_def)

lemma save_invalid:
  assumes "\<not> (spec_nonempty_string d \<and> spec_nonempty_string t \<and> spec_structured x \<and>
             spec_nonempty_string u)"
  shows "\<exists>e. is_ValidationError e \<and> (\<forall>io now ts. save io now ts db d t x u = (Inl e, db))"
proof -
  consider "\<not> spec_nonempty_string d"
    | "spec_nonempty_string d" "\<not> spec_nonempty_string t"
    | "spec_nonempty_string d" "spec_nonempty_string t" "\<not> spec_structured x"
    | "spec_nonempty_string d" "spec_nonempty_string t" "spec_structured x"
      "\<not> spec_nonempty_string u"
    using assms by blast
  then show ?thesis
  proof cases
    case 1
    then have "\<forall>io now ts. save io now ts db d t x u = (Inl (Error ''Invalid docId provided''), db)"
      by (simp add: save_def nonempty_string_check)
    then show ?thesis by (auto simp: is_ValidationError_def)
  next
    case 2
    then have "\<forall>io now ts. save io now ts db d t x u = (Inl (Error ''Invalid title provided''), db)"
      by (simp add: save_def nonempty_string_check)
    then show ?thesis by (auto simp: is_ValidationError_def)
  next
    case 3
    then have "\<forall>io now ts. save io now ts db d t x u = (Inl (Error ''Invalid data provided''), db)"
      by (simp add: save_def nonempty_string_check structured_check)
    then show ?thesis by (auto simp: is_ValidationError_def)
  next
    case 4
    then have "\<forall>io now ts. save io now ts db d t x u = (Inl (Error ''Invalid userId provided''), db)"
      by (simp add: save_def nonempty_string_check structured_check)
    then show ?thesis by (auto simp: is_ValidationError_def)
  qed
qed

lemma userId_invalid:
  assumes "\<not> spec_nonempty_string v"
  shows "\<exists>e. is_ValidationError e \<and> (\<forall>io. getByUser io db v = Inl e) \<and>
           (\<forall>io ios. clearUserDocuments io ios db v = (Inl e, db))"
proof -
  from assms have "\<forall>io. getByUser io db v = Inl (Error ''Invalid userId provided'')"
    and "\<forall>io ios. clearUserDocuments io ios db v = (Inl (Error ''Invalid userId provided''), db)"
    by (simp_all add: getByUser_def clearUserDocuments_def nonempty_string_check)
  then show ?thesis by (auto simp: is_ValidationError_def)
qed

lemma id_invalid:
  assumes "\<not> id_accepted i"
  shows "\<exists>e. is_ValidationError e \<and> (\<forall>io. getById io db i = Inl e) \<and>
           (\<forall>io. delete io db i = (Inl e, db))"
proof -
  from assms have "\<forall>io. getById io db i = Inl (Error ''Invalid id provided'')"
    and "\<forall>io. delete io db i = (Inl (Error ''Invalid id provided''), db)"
    by (simp_all add: getById_def delete_def id_check)
  then show ?thesis by (auto simp: is_ValidationError_def)
qed

lemma floor_five_halves: "\<lfloor>(5::rat) / 2\<rfloor> = 2"
  by (rule floor_unique) simp_all

lemma not_integer_five_halves: "\<not> spec_integer (JNum (Finite (5 / 2)))"
  using floor_five_halves by (simp add: spec_integer_def del: floor_divide_eq_div_numeral)




end
